theory Spec2Isabelle
  imports Main "HOL-Library.Sublist"
begin

section \<open>Python string primitives used by the cause-list cleaner\<close>

text \<open>
  Cells of the extracted tables are modelled as \<open>string\<close>, a character being one of the
  first 256 code points. The classification of characters follows Python's \<open>str\<close>
  methods on these code points: \<open>str.isspace\<close> holds for the codes 9 to 13, 28 to 32, 133
  and 160; \<open>str.isdigit\<close> for the codes 48 to 57 and for the superscript digits 178, 179
  and 185; \<open>str.upper\<close> maps \<open>a\<close> to \<open>z\<close> onto \<open>A\<close> to \<open>Z\<close>, the sharp s (223) to
  \<open>SS\<close>, and the accented small letters 224 to 254 (but 247) to the code 32 below. The
  capitals of the codes 181 and 255 lie beyond the 256 code points; these two are left
  as they are, which changes no test \<open>word in text.upper()\<close> for a word of ASCII
  characters.
\<close>

type_synonym row = "string list"

definition py_isspace :: "char \<Rightarrow> bool" where
  "py_isspace c =
     (let n = (of_char c :: nat)
      in (9 \<le> n \<and> n \<le> 13) \<or> (28 \<le> n \<and> n \<le> 32) \<or> n = 133 \<or> n = 160)"

definition py_isdigit_char :: "char \<Rightarrow> bool" where
  "py_isdigit_char c =
     (let n = (of_char c :: nat) in (48 \<le> n \<and> n \<le> 57) \<or> n = 178 \<or> n = 179 \<or> n = 185)"

definition re_digit :: "char \<Rightarrow> bool" where
  \<comment> \<open>the class \<open>\d\<close> of \<open>re\<close>: decimal digits only, the codes 48 to 57.\<close>
  "re_digit c = (let n = (of_char c :: nat) in 48 \<le> n \<and> n \<le> 57)"

definition strip :: "string \<Rightarrow> string" where
  \<comment> \<open>\<open>s.strip()\<close>: leading and trailing whitespace removed.\<close>
  "strip s = rev (dropWhile py_isspace (rev (dropWhile py_isspace s)))"

definition isdigit :: "string \<Rightarrow> bool" where
  \<comment> \<open>\<open>s.isdigit()\<close>: at least one character, and all of them digits.\<close>
  "isdigit s = (s \<noteq> [] \<and> list_all py_isdigit_char s)"

definition py_upper_char :: "char \<Rightarrow> string" where
  "py_upper_char c =
     (case map_of (zip ''abcdefghijklmnopqrstuvwxyz'' ''ABCDEFGHIJKLMNOPQRSTUVWXYZ'') c of
        Some u \<Rightarrow> [u]
      | None \<Rightarrow>
          (let n = (of_char c :: nat) in
           if n = 223 then ''SS''
           else if 224 \<le> n \<and> n \<le> 254 \<and> n \<noteq> 247 then [char_of (n - 32)]
           else [c]))"

definition upper :: "string \<Rightarrow> string" where
  "upper s = concat (map py_upper_char s)"

definition py_in :: "string \<Rightarrow> string \<Rightarrow> bool" where
  \<comment> \<open>\<open>p in s\<close> on strings: \<open>p\<close> occurs in \<open>s\<close> as a contiguous piece.\<close>
  "py_in p s = sublist p s"

fun split_on :: "char \<Rightarrow> string \<Rightarrow> string list" where
  \<comment> \<open>\<open>s.split(sep)\<close> for a separator of one character.\<close>
  "split_on sep [] = [[]]"
| "split_on sep (c # cs) =
     (if c = sep then [] # split_on sep cs
      else (case split_on sep cs of w # ws \<Rightarrow> (c # w) # ws | [] \<Rightarrow> [[c]]))"

section \<open>Gauhati: \<open>Gauhati_court.clean_csv\<close>\<close>

text \<open>
  The file read by \<open>csv.reader\<close> is the list of its rows, and the file written by
  \<open>csv.writer\<close> is the list \<open>cleaned_data\<close>. The function returns \<open>True\<close> after
  writing; an exception (an index out of range) makes it return \<open>False\<close> with the
  file untouched, which is \<open>None\<close> here.
\<close>

definition headers :: row where
  "headers = [''Sr.No.'', ''Case Number'', ''Main Parties'', ''Petitioner Advocate'',
              ''Respondent Advocate'']"

definition truthy :: "row option \<Rightarrow> bool" where
  \<comment> \<open>\<open>if current_case:\<close> is false for \<open>None\<close> and for the empty list.\<close>
  "truthy cur = (case cur of None \<Rightarrow> False | Some c \<Rightarrow> c \<noteq> [])"

definition is_start_row :: "row \<Rightarrow> bool" where
  \<comment> \<open>line 216: \<open>row[0] and row[0].strip().isdigit()\<close>, on a row that has a cell.\<close>
  "is_start_row row = (row ! 0 \<noteq> [] \<and> isdigit (strip (row ! 0)))"

definition start_case :: "row \<Rightarrow> row" where
  \<comment> \<open>lines 220 to 233: the record opened by a start row of at least two cells.\<close>
  "start_case row =
     (let c = [strip (row ! 0), strip (row ! 1), [], [], []];
          c = (if length row > 2 \<and> row ! 2 \<noteq> [] then c[2 := strip (row ! 2)] else c);
          c = (if length row > 3 \<and> row ! 3 \<noteq> [] then c[3 := strip (row ! 3)] else c);
          c = (if length row > 4 \<and> row ! 4 \<noteq> [] then c[4 := strip (row ! 4)] else c)
      in c)"

definition joins_with_vs :: "string \<Rightarrow> string \<Rightarrow> bool" where
  \<comment> \<open>line 246.\<close>
  "joins_with_vs cell parties =
     (py_in ''THE '' cell \<or> list_ex (\<lambda>word. py_in word (upper parties)) [''VERSUS'', ''VS'', ''V.''])"

definition merge_parties :: "row \<Rightarrow> row \<Rightarrow> row" where
  \<comment> \<open>lines 236 to 251: the \<open>if\<close>/\<open>elif\<close> chain on the second and third cells.\<close>
  "merge_parties row c =
     (if length row > 2 \<and> row ! 2 \<noteq> [] \<and> py_in ''Versus'' (row ! 2) then c
      else if length row > 1 \<and> row ! 1 \<noteq> [] \<and> py_in ''WITH'' (row ! 1) then c
      else if length row > 1 \<and> row ! 1 \<noteq> [] \<and> py_in ''in '' (row ! 1) then
        (if c ! 1 \<noteq> [] then c[1 := c ! 1 @ ''; '' @ strip (row ! 1)] else c)
      else if length row > 2 \<and> row ! 2 \<noteq> [] then
        (if c ! 2 \<noteq> [] then
           (if joins_with_vs (row ! 2) (c ! 2) then c[2 := c ! 2 @ '' vs '' @ strip (row ! 2)]
            else c[2 := c ! 2 @ '' '' @ strip (row ! 2)])
         else c[2 := strip (row ! 2)])
      else c)"

definition merge_advocate :: "nat \<Rightarrow> row \<Rightarrow> row \<Rightarrow> row" where
  \<comment> \<open>lines 253 to 257 for \<open>k = 3\<close>, lines 259 to 263 for \<open>k = 4\<close>.\<close>
  "merge_advocate k row c =
     (if length row > k \<and> row ! k \<noteq> [] then
        (if c ! k \<noteq> [] then c[k := c ! k @ ''; '' @ strip (row ! k)]
         else c[k := strip (row ! k)])
      else c)"

definition merge_row :: "row \<Rightarrow> row \<Rightarrow> row" where
  \<comment> \<open>lines 236 to 263: a row with an empty leading cell folded into the open record.\<close>
  "merge_row row c = merge_advocate 4 row (merge_advocate 3 row (merge_parties row c))"

type_synonym gstate = "row list \<times> row option"

definition gauhati_step :: "row \<Rightarrow> gstate \<Rightarrow> gstate option" where
  \<comment> \<open>One pass of the \<open>while\<close> body, lines 214 to 265; \<open>None\<close> is an \<open>IndexError\<close>.\<close>
  "gauhati_step row st =
     (case st of (cleaned_data, current_case) \<Rightarrow>
        if row = [] then None
        else if is_start_row row then
          (if length row < 2 then None
           else Some ((if truthy current_case then cleaned_data @ [the current_case]
                       else cleaned_data),
                      Some (start_case row)))
        else if row ! 0 = [] \<and> truthy current_case then
          Some (cleaned_data, Some (merge_row row (the current_case)))
        else Some (cleaned_data, current_case))"

fun gauhati_loop :: "row list \<Rightarrow> gstate \<Rightarrow> gstate option" where
  "gauhati_loop [] st = Some st"
| "gauhati_loop (row # rest) st =
     (case gauhati_step row st of None \<Rightarrow> None | Some st' \<Rightarrow> gauhati_loop rest st')"

definition flush :: "gstate \<Rightarrow> row list" where
  \<comment> \<open>lines 267 and 268.\<close>
  "flush st = (case st of (cleaned_data, current_case) \<Rightarrow>
     if truthy current_case then cleaned_data @ [the current_case] else cleaned_data)"

definition gauhati_clean_csv :: "row list \<Rightarrow> row list option" where
  "gauhati_clean_csv data = map_option flush (gauhati_loop data ([headers], None))"


section \<open>Allahabad: \<open>Allahabad_court.clean_csv\<close>\<close>

text \<open>
  The first loop of \<open>clean_csv\<close> (lines 389 to 409) merges the padded rows; the rest of
  the function works on the merged rows with pandas. A data frame is the list of its
  column labels with the list of its rows.
\<close>

fun merge_cells :: "nat \<Rightarrow> row \<Rightarrow> row \<Rightarrow> row option" where
  \<comment> \<open>lines 401 to 407, \<open>enumerate(row)\<close> from index \<open>i\<close>; \<open>current[i]\<close> out of range raises.\<close>
  "merge_cells i [] current = Some current"
| "merge_cells i (cell # rest) current =
     (let cell' = strip cell in
      if cell' \<noteq> [] then
        (if i < length current then
           merge_cells (Suc i) rest
             (if strip (current ! i) \<noteq> [] then current[i := strip (current ! i) @ '' '' @ cell']
              else current[i := cell'])
         else None)
      else merge_cells (Suc i) rest current)"

definition allahabad_is_start :: "row \<Rightarrow> bool" where
  \<comment> \<open>line 393: \<open>row[0].strip()\<close> is not empty.\<close>
  "allahabad_is_start row = (strip (row ! 0) \<noteq> [])"

type_synonym astate = "row list \<times> row option"

definition allahabad_step :: "row \<Rightarrow> astate \<Rightarrow> astate option" where
  \<comment> \<open>lines 393 to 407; \<open>None\<close> is an \<open>IndexError\<close>.\<close>
  "allahabad_step row st =
     (case st of (merged_rows, current) \<Rightarrow>
        if row = [] then None
        else if allahabad_is_start row then
          Some ((case current of None \<Rightarrow> merged_rows | Some c \<Rightarrow> merged_rows @ [c]), Some row)
        else
          (case current of
             None \<Rightarrow> Some (merged_rows, Some row)
           | Some c \<Rightarrow>
               (case merge_cells 0 row c of
                  None \<Rightarrow> None
                | Some c' \<Rightarrow> Some (merged_rows, Some c'))))"

fun allahabad_loop :: "row list \<Rightarrow> astate \<Rightarrow> astate option" where
  "allahabad_loop [] st = Some st"
| "allahabad_loop (row # rest) st =
     (case allahabad_step row st of None \<Rightarrow> None | Some st' \<Rightarrow> allahabad_loop rest st')"

definition allahabad_flush :: "astate \<Rightarrow> row list" where
  \<comment> \<open>lines 408 and 409.\<close>
  "allahabad_flush st = (case st of (merged_rows, current) \<Rightarrow>
     (case current of None \<Rightarrow> merged_rows | Some c \<Rightarrow> merged_rows @ [c]))"

definition allahabad_merge :: "row list \<Rightarrow> row list option" where
  \<comment> \<open>the value of \<open>merged_rows\<close> at line 411, for the padded rows.\<close>
  "allahabad_merge padded_rows = map_option allahabad_flush (allahabad_loop padded_rows ([], None))"

definition pad_rows :: "row list \<Rightarrow> row list" where
  \<comment> \<open>lines 386 and 387, and again lines 423 and 424; the list is not empty.\<close>
  "pad_rows rows =
     (let max_len = Max (set (map length rows))
      in map (\<lambda>row. row @ replicate (max_len - length row) []) rows)"

definition kept_columns :: "row list \<Rightarrow> nat list" where
  \<comment> \<open>line 414: the labels of the columns holding a cell other than \<open>''\<close>, for rows of one
     width. Line 413 drops nothing: no cell is missing.\<close>
  "kept_columns merged_rows =
     filter (\<lambda>j. list_ex (\<lambda>row. row ! j \<noteq> []) merged_rows) [0..<length (hd merged_rows)]"

definition non_empty_values :: "nat list \<Rightarrow> row \<Rightarrow> row" where
  \<comment> \<open>line 420, on the kept columns of one row.\<close>
  "non_empty_values cols row = filter (\<lambda>val. strip val \<noteq> []) (map (\<lambda>j. row ! j) cols)"

datatype frame = Frame (columns: "nat list") (frame_rows: "row list")

definition cleaned_frame :: "row list \<Rightarrow> frame" where
  \<comment> \<open>lines 411 to 433: \<open>cleaned_df\<close> before the rows are dropped.\<close>
  "cleaned_frame merged_rows =
     (let column_names = kept_columns merged_rows;
          cleaned_rows = map (non_empty_values column_names) merged_rows;
          padded_cleaned_rows = pad_rows cleaned_rows;
          width = length (hd padded_cleaned_rows);
          num_original_cols = length column_names;
          padded_cleaned_rows =
            (if width > num_original_cols then map (take num_original_cols) padded_cleaned_rows
             else padded_cleaned_rows);
          width = min width num_original_cols
      in Frame (if width = num_original_cols then column_names else [0..<width])
               padded_cleaned_rows)"

definition drop_index_0_5 :: "frame \<Rightarrow> frame option" where
  \<comment> \<open>line 435: \<open>drop(index=range(0,5))\<close> raises \<open>KeyError\<close> when a label from 0 to 4 is
     not in the index, which is \<open>0 .. n - 1\<close>.\<close>
  "drop_index_0_5 df =
     (if length (frame_rows df) < 5 then None
      else Some (Frame (columns df) (drop 5 (frame_rows df))))"

datatype clean_result =
    Returned_None
  | Returned_Empty_Frame
  | Written frame

definition allahabad_clean_csv :: "row list \<Rightarrow> clean_result" where
  \<comment> \<open>\<open>Written df\<close>: \<open>df\<close> was written to the file and \<open>True\<close> returned. In the two
     other cases the file is untouched.\<close>
  "allahabad_clean_csv rows =
     (if rows = [] then Returned_Empty_Frame
      else
        (case allahabad_merge (pad_rows rows) of
           None \<Rightarrow> Returned_None
         | Some merged_rows \<Rightarrow>
             (case drop_index_0_5 (cleaned_frame merged_rows) of
                None \<Rightarrow> Returned_None
              | Some df \<Rightarrow> Written df)))"

section \<open>Matching and notification: \<open>process_csv\<close>\<close>

text \<open>
  The database is the table of watchers by case number, and a flag telling whether it can
  be reached. \<open>get_user_detail\<close> raises when it cannot (\<open>None\<close> here); otherwise it
  returns the rows of the query, the empty list standing for Python's \<open>None\<close> of line 95.
  A case number that is Python's \<open>None\<close> is sent as SQL \<open>NULL\<close>, which equals no stored
  case number. The effects of \<open>process_csv\<close> are the calls of \<open>get_user_detail\<close> and of
  \<open>send_email\<close>, in order; \<open>send_email\<close> catches its own delivery errors.
\<close>

type_synonym watcher = "string \<times> string"

record database =
  reachable :: bool
  watchers_of :: "string \<Rightarrow> watcher list"

definition get_user_detail :: "database \<Rightarrow> string option \<Rightarrow> watcher list option" where
  "get_user_detail db case_no =
     (if \<not> reachable db then None
      else Some (case case_no of None \<Rightarrow> [] | Some k \<Rightarrow> watchers_of db k))"

datatype advocates = Names "string list" | Text string

record logical_record =
  case_number :: "string option"
  main_parties :: string
  petitioner_advocates :: advocates
  respondent_advocates :: advocates

record effects =
  lookups :: "string option list"
  emails :: "(watcher \<times> logical_record) list"

definition no_effects :: effects where
  "no_effects = \<lparr>lookups = [], emails = []\<rparr>"

definition lookup_and_notify :: "database \<Rightarrow> logical_record \<Rightarrow> effects \<Rightarrow> effects option" where
  \<comment> \<open>lines 141 to 144, and 465 to 468; \<open>None\<close> when \<open>get_user_detail\<close> raised.\<close>
  "lookup_and_notify db r e =
     (case get_user_detail db (case_number r) of
        None \<Rightarrow> None
      | Some details \<Rightarrow>
          Some (e\<lparr>lookups := lookups e @ [case_number r],
                  emails := emails e @ map (\<lambda>detail. (detail, r)) details\<rparr>))"

definition notifications :: "database \<Rightarrow> logical_record \<Rightarrow> (watcher \<times> logical_record) list" where
  \<comment> \<open>the calls of \<open>send_email\<close> for one record, when the database is reached.\<close>
  "notifications db r =
     (case case_number r of
        None \<Rightarrow> []
      | Some k \<Rightarrow> map (\<lambda>detail. (detail, r)) (watchers_of db k))"

subsection \<open>\<open>Super_Class.process_csv\<close>, used by Gauhati\<close>

definition dict_row :: "row \<Rightarrow> row \<Rightarrow> (string \<rightharpoonup> string option)" where
  \<comment> \<open>a row of \<open>csv.DictReader\<close>: the cells by field name, the last of equal names winning,
     and \<open>None\<close> for the fields a short row does not reach.\<close>
  "dict_row fieldnames row =
     map_of (rev (zip fieldnames
                    (map Some row @ replicate (length fieldnames - length row) None)))"

definition or_empty :: "string option \<Rightarrow> string" where
  \<comment> \<open>\<open>v if v else ""\<close>.\<close>
  "or_empty v = (case v of None \<Rightarrow> [] | Some t \<Rightarrow> t)"

definition split_advocates :: "string option \<Rightarrow> advocates" where
  \<comment> \<open>lines 139 and 140: \<open>v.split(';') if v else []\<close>.\<close>
  "split_advocates v =
     (case v of None \<Rightarrow> Names []
      | Some t \<Rightarrow> if t = [] then Names [] else Names (split_on (CHR '';'') t))"

definition parse_record :: "row \<Rightarrow> row \<Rightarrow> logical_record option" where
  \<comment> \<open>lines 137 to 140; \<open>None\<close> is the \<open>KeyError\<close> of a missing field name.\<close>
  "parse_record fieldnames row =
     (let d = dict_row fieldnames row in
      case (d ''Case Number'', d ''Main Parties'', d ''Petitioner Advocate'',
            d ''Respondent Advocate'') of
        (Some cn, Some mp, Some pa, Some ra) \<Rightarrow>
          Some \<lparr>case_number = Some (or_empty cn), main_parties = or_empty mp,
                petitioner_advocates = split_advocates pa,
                respondent_advocates = split_advocates ra\<rparr>
      | _ \<Rightarrow> None)"

fun process_rows :: "database \<Rightarrow> row \<Rightarrow> row list \<Rightarrow> effects \<Rightarrow> effects" where
  \<comment> \<open>the \<open>for\<close> loop of lines 136 to 144 inside the \<open>try\<close>: an exception ends the loop.\<close>
  "process_rows db fieldnames [] e = e"
| "process_rows db fieldnames (row # rest) e =
     (case parse_record fieldnames row of
        None \<Rightarrow> e
      | Some r \<Rightarrow>
          (case lookup_and_notify db r e of
             None \<Rightarrow> e
           | Some e' \<Rightarrow> process_rows db fieldnames rest e'))"

definition process_csv :: "database \<Rightarrow> row list \<Rightarrow> effects" where
  \<comment> \<open>\<open>DictReader\<close> takes the first row as the field names and skips empty rows.\<close>
  "process_csv db file =
     (case file of
        [] \<Rightarrow> no_effects
      | fieldnames # rows \<Rightarrow> process_rows db fieldnames (filter (\<lambda>row. row \<noteq> []) rows) no_effects)"

definition parsed_records :: "row list \<Rightarrow> logical_record option list" where
  \<comment> \<open>the records \<open>process_csv\<close> reads from a file, one per row.\<close>
  "parsed_records file =
     (case file of
        [] \<Rightarrow> []
      | fieldnames # rows \<Rightarrow> map (parse_record fieldnames) (filter (\<lambda>row. row \<noteq> []) rows))"

subsection \<open>\<open>Allahabad_court.process_csv\<close>\<close>

definition is_AZ09 :: "char \<Rightarrow> bool" where
  "is_AZ09 c = (c \<in> set ''ABCDEFGHIJKLMNOPQRSTUVWXYZ0123456789'')"

definition match_at :: "string \<Rightarrow> string option" where
  \<comment> \<open>the pattern \<open>([A-Z0-9]+)/(\d+)/(\d{4})\<close> matched at the start of the text. Each
     greedy run is followed by a character outside its class, so giving characters back
     finds no other match.\<close>
  "match_at t =
     (let a = takeWhile is_AZ09 t; t1 = dropWhile is_AZ09 t in
      if a = [] then None
      else (case t1 of
              [] \<Rightarrow> None
            | c1 # t2 \<Rightarrow>
                if c1 \<noteq> CHR ''/'' then None
                else (let b = takeWhile re_digit t2; t3 = dropWhile re_digit t2 in
                      if b = [] then None
                      else (case t3 of
                              [] \<Rightarrow> None
                            | c2 # t4 \<Rightarrow>
                                if c2 \<noteq> CHR ''/'' then None
                                else if 4 \<le> length t4 \<and> list_all re_digit (take 4 t4)
                                then Some (a @ ''/'' @ b @ ''/'' @ take 4 t4)
                                else None))))"

fun re_search :: "string \<Rightarrow> string option" where
  \<comment> \<open>\<open>re.search(pattern, t).group(0)\<close>: the match at the leftmost position that has one.\<close>
  "re_search [] = None"
| "re_search (c # cs) =
     (case match_at (c # cs) of Some m \<Rightarrow> Some m | None \<Rightarrow> re_search cs)"

fun find_case :: "row \<Rightarrow> nat \<Rightarrow> nat \<times> string option" where
  \<comment> \<open>the \<open>while\<close> loop of lines 454 to 458 over the cells from index \<open>i\<close> on: the index
     it stops at, and the case number.\<close>
  "find_case [] i = (i, None)"
| "find_case (cell # cells) i =
     (case re_search cell of Some m \<Rightarrow> (i, Some m) | None \<Rightarrow> find_case cells (Suc i))"

definition cell_or_empty :: "row \<Rightarrow> nat \<Rightarrow> string" where
  \<comment> \<open>\<open>''.join(row[i]) if i < size else ""\<close>.\<close>
  "cell_or_empty row i = (if i < length row then row ! i else [])"

definition allahabad_parse_record :: "row \<Rightarrow> logical_record" where
  \<comment> \<open>lines 448 to 464.\<close>
  "allahabad_parse_record row =
     (case find_case row 0 of (i, cn) \<Rightarrow>
        \<lparr>case_number = cn, main_parties = cell_or_empty row (i + 1),
         petitioner_advocates = Text (cell_or_empty row (i + 2)),
         respondent_advocates = Text (cell_or_empty row (i + 3))\<rparr>)"

fun allahabad_process_rows :: "database \<Rightarrow> row list \<Rightarrow> effects \<Rightarrow> effects \<times> bool" where
  \<comment> \<open>the \<open>for\<close> loop of lines 447 to 468; the flag tells that an exception left the
     function, which has no \<open>try\<close>.\<close>
  "allahabad_process_rows db [] e = (e, False)"
| "allahabad_process_rows db (row # rest) e =
     (case lookup_and_notify db (allahabad_parse_record row) e of
        None \<Rightarrow> (e, True)
      | Some e' \<Rightarrow> allahabad_process_rows db rest e')"

definition allahabad_process_csv :: "database \<Rightarrow> row list \<Rightarrow> effects \<times> bool" where
  \<comment> \<open>\<open>reader[1:]\<close>: every row but the first.\<close>
  "allahabad_process_csv db file = allahabad_process_rows db (tl file) no_effects"

section \<open>The orchestrator: \<open>main.py\<close> and \<open>fetch_list\<close>\<close>

subsection \<open>Page ranges of \<open>process_pdf\<close>\<close>

function range_from :: "nat \<Rightarrow> nat \<Rightarrow> nat \<Rightarrow> nat list" where
  \<comment> \<open>\<open>range(start, stop, step)\<close> for a positive step.\<close>
  "range_from start stop step =
     (if step = 0 \<or> stop \<le> start then [] else start # range_from (start + step) stop step)"
  by pat_completeness auto
termination
  by (relation "measure (\<lambda>(start, stop, step). stop - start)") auto

declare range_from.simps [simp del]

definition page_ranges :: "nat \<Rightarrow> nat \<Rightarrow> (nat \<times> nat) list" where
  \<comment> \<open>line 44 of main.py, each string \<open>"a-b"\<close> as the pair of its bounds; the chunk size is
     positive (it is 50 in every call).\<close>
  "page_ranges num_pages chunk_size =
     map (\<lambda>start. (start, min (start + chunk_size - 1) num_pages))
       (range_from 2 num_pages chunk_size)"

definition in_chunk :: "nat \<Rightarrow> nat \<times> nat \<Rightarrow> bool" where
  \<comment> \<open>page \<open>p\<close> lies in the page range \<open>"a-b"\<close>.\<close>
  "in_chunk p chunk = (fst chunk \<le> p \<and> p \<le> snd chunk)"

subsection \<open>\<open>process_pdf\<close> for a Gauhati document\<close>

text \<open>
  A downloaded document is its page count, as \<open>get_page_count\<close> returns it, with the
  table \<open>extract_csv_wrapper\<close> finds on each page range (\<open>None\<close> when there is none or
  the extraction fails).
\<close>

record document =
  num_pages :: nat
  extract_csv :: "nat \<times> nat \<Rightarrow> row list option"

fun show_nat :: "nat \<Rightarrow> string" where
  "show_nat n =
     (if n < 10 then [''0123456789'' ! n]
      else show_nat (n div 10) @ [''0123456789'' ! (n mod 10)])"

declare show_nat.simps [simp del]

definition widest :: "row list \<Rightarrow> nat" where
  "widest rows = foldr (\<lambda>row m. max (length row) m) rows 0"

definition to_csv :: "row list list \<Rightarrow> row list" where
  \<comment> \<open>lines 51 to 55 of main.py: the frames one under the other, short rows filled with
     empty cells, under the header row of the column labels \<open>0, 1, ...\<close>.\<close>
  "to_csv frames =
     (let rows = concat frames; w = widest rows
      in map show_nat [0..<w] # map (\<lambda>row. row @ replicate (w - length row) []) rows)"

definition process_pdf :: "database \<Rightarrow> document \<Rightarrow> row list \<times> effects" where
  \<comment> \<open>lines 37 to 63 of main.py for the court \<open>Gauhati_court\<close>: the records of the cleaned
     file (its rows after the header; none when nothing was cleaned), and the effects of
     \<open>process_csv\<close> on the file.\<close>
  "process_pdf db doc =
     (if num_pages doc < 2 then ([], no_effects)
      else
        (let results = map (extract_csv doc) (page_ranges (num_pages doc) 50);
             valid_results = map the (filter (\<lambda>df. df \<noteq> None) results)
         in if valid_results \<noteq> [] then
              (let csv = to_csv valid_results
               in case gauhati_clean_csv csv of
                    None \<Rightarrow> ([], process_csv db csv)
                  | Some cleaned \<Rightarrow> (tl cleaned, process_csv db cleaned))
            else ([], no_effects)))"

subsection \<open>\<open>fetch_list\<close> and the watermark\<close>

text \<open>
  The watermark is the column \<open>last_list_date\<close> of the court's row: a text, or \<open>None\<close> for
  SQL \<open>NULL\<close>. A date is its day number (\<open>date.toordinal()\<close>), and
  \<open>datetime.strptime(text, format).date()\<close> is a parameter of the model, \<open>None\<close> being its
  \<open>ValueError\<close>. An entry of the court's listing is the text of its cell, whether the
  link to its document is found, and whether the download succeeds. \<open>fetch_list\<close> returns
  the new watermark with the downloaded files, each represented by the date text it is
  named after; \<open>None\<close> for the files is the \<open>return None\<close> of the function. A failure of
  the browser or of the database outside the loop is \<open>site_ok = False\<close>.
\<close>

type_synonym date = nat

type_synonym date_parser = "string \<Rightarrow> string \<Rightarrow> date option"

record listing_row =
  cell_text :: string
  link_ok :: bool
  download_ok :: bool

record listing =
  site_ok :: bool
  list_rows :: "listing_row list"

definition last_date_of :: "date_parser \<Rightarrow> string \<Rightarrow> date \<Rightarrow> string option \<Rightarrow> date option" where
  \<comment> \<open>lines 159 to 163 and 292 to 296: today when there is no watermark, else the date the
     trimmed watermark denotes; \<open>None\<close> when \<open>strptime\<close> raises on it.\<close>
  "last_date_of strptime fmt today stored =
     (case stored of None \<Rightarrow> Some today | Some t \<Rightarrow> strptime (strip t) fmt)"

fun gauhati_accept :: "date_parser \<Rightarrow> date \<Rightarrow> listing_row list \<Rightarrow> string list \<Rightarrow> string list option" where
  \<comment> \<open>the \<open>for\<close> loop of lines 171 to 183: \<open>list_date\<close> is the first ten characters of the
     cell; entries newer than \<open>last_date\<close> are downloaded, the first other entry ends the
     loop; \<open>None\<close> is an exception.\<close>
  "gauhati_accept strptime last_date [] pdf_names = Some pdf_names"
| "gauhati_accept strptime last_date (r # rest) pdf_names =
     (let list_date = take 10 (cell_text r) in
      if \<not> link_ok r then None
      else
        (case strptime (strip list_date) ''%d/%m/%Y'' of
           None \<Rightarrow> None
         | Some d \<Rightarrow>
             if last_date < d then
               (if download_ok r
                then gauhati_accept strptime last_date rest (pdf_names @ [list_date])
                else None)
             else Some pdf_names))"

definition gauhati_fetch_list ::
  "date_parser \<Rightarrow> date \<Rightarrow> string option \<Rightarrow> listing \<Rightarrow> string option \<times> string list option" where
  \<comment> \<open>lines 150 to 199: the rows of the table, row 0 being its heading; \<open>new_date\<close> is the
     whole text of the cell of row 1, and it is what the \<open>UPDATE\<close> stores.\<close>
  "gauhati_fetch_list strptime today stored page =
     (case last_date_of strptime ''%d/%m/%Y'' today stored of
        None \<Rightarrow> (stored, None)
      | Some last_date \<Rightarrow>
          if \<not> site_ok page \<or> length (list_rows page) < 2 then (stored, None)
          else
            (let new_date = cell_text (list_rows page ! 1) in
             case gauhati_accept strptime last_date (tl (list_rows page)) [] of
               None \<Rightarrow> (stored, None)
             | Some pdf_names \<Rightarrow>
                 if pdf_names \<noteq> [] then (Some new_date, Some pdf_names)
                 else (stored, None)))"

fun allahabad_accept :: "date_parser \<Rightarrow> date \<Rightarrow> listing_row list \<Rightarrow> string list \<Rightarrow> string list option" where
  \<comment> \<open>the \<open>for\<close> loop of lines 311 to 355: \<open>d_text\<close> is the trimmed text of the option.\<close>
  "allahabad_accept strptime last_date [] pdf_names = Some pdf_names"
| "allahabad_accept strptime last_date (r # rest) pdf_names =
     (let d_text = strip (cell_text r) in
      case strptime d_text ''%d-%m-%Y'' of
        None \<Rightarrow> None
      | Some d_date \<Rightarrow>
          if last_date < d_date then
            (if link_ok r \<and> download_ok r
             then allahabad_accept strptime last_date rest (pdf_names @ [d_text])
             else None)
          else Some pdf_names)"

definition allahabad_fetch_list ::
  "date_parser \<Rightarrow> date \<Rightarrow> string option \<Rightarrow> listing \<Rightarrow> string option \<times> string list option" where
  \<comment> \<open>lines 280 to 373: the options of the date selector; \<open>new_date\<close> is the text of
     option 0.\<close>
  "allahabad_fetch_list strptime today stored page =
     (case last_date_of strptime ''%d-%m-%Y'' today stored of
        None \<Rightarrow> (stored, None)
      | Some last_date \<Rightarrow>
          if \<not> site_ok page \<or> list_rows page = [] then (stored, None)
          else
            (let new_date = cell_text (list_rows page ! 0) in
             case allahabad_accept strptime last_date (list_rows page) [] of
               None \<Rightarrow> (stored, None)
             | Some pdf_names \<Rightarrow>
                 if pdf_names \<noteq> [] then (Some new_date, Some pdf_names)
                 else (stored, None)))"

definition sample_strptime :: date_parser where
  \<comment> \<open>\<open>strptime\<close> on the date texts of the examples below, with the day numbers of
     10, 20 and 21 January 2025; it raises on every other text, as the library does on
     \<open>20/01/2025 Daily List\<close>.\<close>
  "sample_strptime t fmt =
     (if fmt = ''%d/%m/%Y'' \<and> t = ''10/01/2025'' then Some 739261
      else if fmt = ''%d/%m/%Y'' \<and> t = ''20/01/2025'' then Some 739271
      else if fmt = ''%d-%m-%Y'' \<and> t = ''20-01-2025'' then Some 739271
      else if fmt = ''%d-%m-%Y'' \<and> t = ''21-01-2025'' then Some 739272
      else None)"

definition run_gauhati ::
  "date_parser \<Rightarrow> date \<Rightarrow> string option \<Rightarrow> listing \<Rightarrow> (string \<Rightarrow> document) \<Rightarrow> database
     \<Rightarrow> string option \<times> (string \<times> row list \<times> effects) list" where
  \<comment> \<open>lines 72 to 78 of main.py for Gauhati: the watermark after the run, and for each
     downloaded file the result of \<open>process_pdf\<close>.\<close>
  "run_gauhati strptime today stored page pdf db =
     (case gauhati_fetch_list strptime today stored page of
        (stored', None) \<Rightarrow> (stored', [])
      | (stored', Some pdf_files) \<Rightarrow>
          (stored', map (\<lambda>f. (f, process_pdf db (pdf f))) pdf_files))"

subsection \<open>Invariant of the Gauhati loop\<close>

definition from_start :: "row list \<Rightarrow> row \<Rightarrow> bool" where
  "from_start data r =
     (length r = 5 \<and>
      (\<exists>row \<in> set data. row \<noteq> [] \<and> is_start_row row \<and> r ! 0 = strip (row ! 0)))"

definition ginv :: "row list \<Rightarrow> gstate \<Rightarrow> bool" where
  "ginv data st = (case st of (cleaned, cur) \<Rightarrow>
     cleaned \<noteq> [] \<and> hd cleaned = headers \<and> list_all (from_start data) (tl cleaned) \<and>
     (case cur of None \<Rightarrow> True | Some c \<Rightarrow> from_start data c))"

section \<open>Properties of the Gauhati cleaner\<close>

lemmas eval_defs =
  gauhati_clean_csv_def gauhati_step_def is_start_row_def start_case_def merge_row_def
  merge_advocate_def merge_parties_def joins_with_vs_def flush_def truthy_def strip_def
  isdigit_def py_isspace_def py_isdigit_char_def py_in_def upper_def py_upper_char_def
  sublist_Cons_right



lemma length_merge_advocate: "length (merge_advocate k row c) = length c"
  by (simp add: merge_advocate_def)

lemma length_merge_parties: "length (merge_parties row c) = length c"
  by (simp add: merge_parties_def)

lemma length_merge_row: "length (merge_row row c) = length c"
  by (simp add: merge_row_def length_merge_advocate length_merge_parties)

lemma merge_advocate_nth: "j \<noteq> k \<Longrightarrow> merge_advocate k row c ! j = c ! j"
  by (simp add: merge_advocate_def)

lemma merge_parties_nth0: "merge_parties row c ! 0 = c ! 0"
  by (simp add: merge_parties_def)

lemma merge_row_nth0: "merge_row row c ! 0 = c ! 0"
  by (simp add: merge_row_def merge_advocate_nth merge_parties_nth0)

lemma length_start_case: "length (start_case row) = 5"
  by (simp add: start_case_def Let_def)

lemma start_case_nth0: "start_case row ! 0 = strip (row ! 0)"
  by (simp add: start_case_def Let_def)

lemma gauhati_step_inv:
  assumes "ginv data st" "row \<in> set data" "gauhati_step row st = Some st'"
  shows "ginv data st'"
proof -
  obtain cleaned cur where st: "st = (cleaned, cur)" by (cases st)
  show ?thesis
  proof (cases "is_start_row row")
    case True
    have r: "row \<noteq> []"
      using assms(3) st by (cases "row = []") (simp_all add: gauhati_step_def)
    have l: "\<not> length row < 2"
      using assms(3) st r True by (cases "length row < 2") (simp_all add: gauhati_step_def)
    have fs: "from_start data (start_case row)"
      using True r assms(2) by (auto simp: from_start_def length_start_case start_case_nth0)
    from assms st True l r have st': "st' = ((if truthy cur then cleaned @ [the cur] else cleaned), Some (start_case row))"
      by (simp add: gauhati_step_def)
    show ?thesis using assms(1) fs unfolding st st'
      by (cases cur) (auto simp: ginv_def truthy_def)
  next
    case False
    show ?thesis
    proof (cases "row \<noteq> [] \<and> row ! 0 = [] \<and> truthy cur")
      case True
      with assms st False have st': "st' = (cleaned, Some (merge_row row (the cur)))"
        by (simp add: gauhati_step_def)
      from True obtain c where c: "cur = Some c" by (cases cur) (auto simp: truthy_def)
      show ?thesis using assms(1) unfolding st st' c
        by (auto simp: ginv_def from_start_def length_merge_row merge_row_nth0)
    next
      case F2: False
      have r: "row \<noteq> []"
        using assms(3) st by (cases "row = []") (simp_all add: gauhati_step_def)
      with F2 have "\<not> (row ! 0 = [] \<and> truthy cur)" by simp
      with assms(3) st False r have "st' = st"
        by (simp add: gauhati_step_def)
      with assms(1) show ?thesis by simp
    qed
  qed
qed

lemma gauhati_loop_inv:
  "ginv data st \<Longrightarrow> set rows \<subseteq> set data \<Longrightarrow> gauhati_loop rows st = Some st' \<Longrightarrow> ginv data st'"
proof (induction rows arbitrary: st)
  case Nil
  then show ?case by simp
next
  case (Cons row rest)
  from Cons.prems(3) obtain st1 where s1: "gauhati_step row st = Some st1"
    and l: "gauhati_loop rest st1 = Some st'"
    by (auto split: option.splits)
  have "ginv data st1" using gauhati_step_inv[OF Cons.prems(1) _ s1] Cons.prems(2) by simp
  then show ?case using Cons.IH[OF _ _ l] Cons.prems(2) by simp
qed

lemma flush_inv:
  "ginv data st \<Longrightarrow> flush st \<noteq> [] \<and> hd (flush st) = headers \<and> list_all (from_start data) (tl (flush st))"
  by (cases st) (auto simp: ginv_def flush_def truthy_def split: option.splits)

text \<open>
  C10. Whenever \<open>Gauhati_court.clean_csv\<close> writes its output, the first row written is
  the fixed header, and every later row has exactly five cells, the first of which is a
  non-empty string of digits: the trimmed leading cell of a start row of the input.
\<close>

theorem gauhati_output_shape:
  assumes "gauhati_clean_csv data = Some out"
  shows "out \<noteq> [] \<and> hd out = headers \<and>
         (\<forall>r \<in> set (tl out). length r = 5 \<and> r ! 0 \<noteq> [] \<and> list_all py_isdigit_char (r ! 0) \<and>
            (\<exists>row \<in> set data. row \<noteq> [] \<and> is_start_row row \<and> r ! 0 = strip (row ! 0)))"
proof -
  from assms obtain st where l: "gauhati_loop data ([headers], None) = Some st" and o: "out = flush st"
    by (auto simp: gauhati_clean_csv_def)
  have "ginv data ([headers], None)" by (simp add: ginv_def)
  from gauhati_loop_inv[OF this _ l] have "ginv data st" by simp
  from flush_inv[OF this] show ?thesis unfolding o
    by (auto simp: list_all_iff from_start_def is_start_row_def isdigit_def)
qed

theorem gauhati_output_shape_witness:
  "gauhati_clean_csv [[''7'', ''WP/1/2024'', ''A'', ''B''], [[], [], ''C'']]
     = Some [headers, [''7'', ''WP/1/2024'', ''A C'', ''B'', []]] \<and>
   hd [headers, [''7'', ''WP/1/2024'', ''A C'', ''B'', []]] = headers \<and>
   list_all (\<lambda>r. length r = 5 \<and> r ! 0 \<noteq> [] \<and> list_all py_isdigit_char (r ! 0))
     (tl [headers, [''7'', ''WP/1/2024'', ''A C'', ''B'', []]])"
proof -
  have h: "gauhati_clean_csv [[''7'', ''WP/1/2024'', ''A'', ''B''], [[], [], ''C'']]
     = Some [headers, [''7'', ''WP/1/2024'', ''A C'', ''B'', []]]"
    by (simp add: eval_defs)
  from gauhati_output_shape[OF h] h show ?thesis by simp
qed





















section \<open>Properties of the Allahabad cleaner\<close>

lemma length_pad_rows: "length (pad_rows rows) = length rows"
  by (simp add: pad_rows_def Let_def)

lemma length_cleaned_frame: "length (frame_rows (cleaned_frame merged_rows)) = length merged_rows"
  by (simp add: cleaned_frame_def Let_def length_pad_rows)

text \<open>
  C9. \<open>Allahabad_court.clean_csv\<close> deletes the first five merged rows before it writes.
  For a non-empty input whose merge gives fewer than five rows (or raises), nothing is
  written and \<open>None\<close> is returned; whenever a frame is written, at least five rows
  were merged and the frame holds the cleaned rows without the first five.
\<close>

theorem allahabad_drops_first_five:
  "(rows \<noteq> [] \<and> (case allahabad_merge (pad_rows rows) of None \<Rightarrow> True
                    | Some merged_rows \<Rightarrow> length merged_rows < 5) \<longrightarrow>
      allahabad_clean_csv rows = Returned_None) \<and>
   (allahabad_clean_csv rows = Written df \<longrightarrow>
      (\<exists>merged_rows. allahabad_merge (pad_rows rows) = Some merged_rows \<and>
         5 \<le> length merged_rows \<and>
         df = Frame (columns (cleaned_frame merged_rows))
                    (drop 5 (frame_rows (cleaned_frame merged_rows))) \<and>
         length (frame_rows df) = length merged_rows - 5))"
proof (intro conjI impI)
  assume a: "rows \<noteq> [] \<and> (case allahabad_merge (pad_rows rows) of None \<Rightarrow> True
                    | Some merged_rows \<Rightarrow> length merged_rows < 5)"
  show "allahabad_clean_csv rows = Returned_None"
  proof (cases "allahabad_merge (pad_rows rows)")
    case None
    with a show ?thesis by (simp add: allahabad_clean_csv_def)
  next
    case (Some m)
    with a have "length m < 5" by simp
    then have "drop_index_0_5 (cleaned_frame m) = None"
      by (simp add: drop_index_0_5_def length_cleaned_frame)
    with a Some show ?thesis by (simp add: allahabad_clean_csv_def)
  qed
next
  assume w: "allahabad_clean_csv rows = Written df"
  then have ne: "rows \<noteq> []" by (cases "rows = []") (simp_all add: allahabad_clean_csv_def)
  from w ne obtain m where m: "allahabad_merge (pad_rows rows) = Some m"
    by (cases "allahabad_merge (pad_rows rows)") (simp_all add: allahabad_clean_csv_def)
  from w ne m have d: "drop_index_0_5 (cleaned_frame m) = Some df"
    by (cases "drop_index_0_5 (cleaned_frame m)") (simp_all add: allahabad_clean_csv_def)
  then have l: "\<not> length (frame_rows (cleaned_frame m)) < 5"
    by (cases "length (frame_rows (cleaned_frame m)) < 5") (simp_all add: drop_index_0_5_def)
  with d have df: "df = Frame (columns (cleaned_frame m)) (drop 5 (frame_rows (cleaned_frame m)))"
    by (simp add: drop_index_0_5_def)
  from l have "5 \<le> length m" by (simp add: length_cleaned_frame)
  moreover have "length (frame_rows df) = length m - 5"
    unfolding df by (simp add: length_cleaned_frame)
  ultimately show "\<exists>merged_rows. allahabad_merge (pad_rows rows) = Some merged_rows \<and>
         5 \<le> length merged_rows \<and>
         df = Frame (columns (cleaned_frame merged_rows))
                    (drop 5 (frame_rows (cleaned_frame merged_rows))) \<and>
         length (frame_rows df) = length merged_rows - 5"
    using m df by blast
qed



theorem allahabad_drops_first_five_witness:
  "[[''0'', ''1''], [''1'', ''WRIT/7/2024''], [[], ''A vs B'']] \<noteq> [] \<and>
   allahabad_merge (pad_rows [[''0'', ''1''], [''1'', ''WRIT/7/2024''], [[], ''A vs B'']])
     = Some [[''0'', ''1''], [''1'', ''WRIT/7/2024 A vs B'']] \<and>
   allahabad_clean_csv [[''0'', ''1''], [''1'', ''WRIT/7/2024''], [[], ''A vs B'']] = Returned_None \<and>
   allahabad_clean_csv [[''0''], [''a''], [''b''], [''c''], [''d''], [''1'', ''WRIT/7/2024'']]
     = Written (Frame [0, 1] [[''1'', ''WRIT/7/2024'']]) \<and>
   (\<exists>merged_rows.
      allahabad_merge (pad_rows [[''0''], [''a''], [''b''], [''c''], [''d''], [''1'', ''WRIT/7/2024'']])
        = Some merged_rows \<and> 5 \<le> length merged_rows \<and>
      length (frame_rows (Frame [0, 1] [[''1'', ''WRIT/7/2024'']])) = length merged_rows - 5)"
proof -
  have m: "allahabad_merge (pad_rows [[''0'', ''1''], [''1'', ''WRIT/7/2024''], [[], ''A vs B'']])
     = Some [[''0'', ''1''], [''1'', ''WRIT/7/2024 A vs B'']]"
    by code_simp
  have n: "allahabad_clean_csv [[''0'', ''1''], [''1'', ''WRIT/7/2024''], [[], ''A vs B'']] = Returned_None"
    using allahabad_drops_first_five[of "[[''0'', ''1''], [''1'', ''WRIT/7/2024''], [[], ''A vs B'']]"] m
    by simp
  have w: "allahabad_clean_csv [[''0''], [''a''], [''b''], [''c''], [''d''], [''1'', ''WRIT/7/2024'']]
     = Written (Frame [0, 1] [[''1'', ''WRIT/7/2024'']])"
    by code_simp
  from allahabad_drops_first_five[of "[[''0''], [''a''], [''b''], [''c''], [''d''], [''1'', ''WRIT/7/2024'']]"
      "Frame [0, 1] [[''1'', ''WRIT/7/2024'']]"] w
  have "\<exists>merged_rows.
      allahabad_merge (pad_rows [[''0''], [''a''], [''b''], [''c''], [''d''], [''1'', ''WRIT/7/2024'']])
        = Some merged_rows \<and> 5 \<le> length merged_rows \<and>
      length (frame_rows (Frame [0, 1] [[''1'', ''WRIT/7/2024'']])) = length merged_rows - 5"
    by blast
  with m n w show ?thesis by blast
qed

section \<open>Properties of matching and notification\<close>

lemma lookup_and_notify_reachable:
  "reachable db \<Longrightarrow>
   lookup_and_notify db r e =
     Some (e\<lparr>lookups := lookups e @ [case_number r], emails := emails e @ notifications db r\<rparr>)"
  by (cases "case_number r") (simp_all add: lookup_and_notify_def get_user_detail_def notifications_def)

lemma dict_row_headers:
  assumes "key \<in> set headers"
  shows "dict_row headers row key \<noteq> None"
proof -
  define vals where "vals = map Some row @ replicate (length headers - length row) None"
  have "length headers \<le> length vals" by (simp add: vals_def)
  then have "map fst (zip headers vals) = headers"
    by (simp add: map_fst_zip_take)
  then have "fst ` set (rev (zip headers vals)) = set headers"
    by (metis set_map set_rev)
  with assms have "map_of (rev (zip headers vals)) key \<noteq> None"
    by (simp add: map_of_eq_None_iff)
  then show ?thesis by (simp add: dict_row_def vals_def)
qed

lemma parse_record_headers: "\<exists>r. parse_record headers row = Some r"
proof -
  have "dict_row headers row ''Case Number'' \<noteq> None"
    by (rule dict_row_headers) (simp add: headers_def)
  moreover have "dict_row headers row ''Main Parties'' \<noteq> None"
    by (rule dict_row_headers) (simp add: headers_def)
  moreover have "dict_row headers row ''Petitioner Advocate'' \<noteq> None"
    by (rule dict_row_headers) (simp add: headers_def)
  moreover have "dict_row headers row ''Respondent Advocate'' \<noteq> None"
    by (rule dict_row_headers) (simp add: headers_def)
  ultimately show ?thesis
    by (auto simp: parse_record_def Let_def)
qed

lemma parsed_records_headers: "\<exists>rs. map (parse_record headers) rows = map Some rs"
proof (induction rows)
  case Nil
  then show ?case by simp
next
  case (Cons row rows)
  then obtain rs where rs: "map (parse_record headers) rows = map Some rs" by blast
  from parse_record_headers obtain r where "parse_record headers row = Some r" by blast
  with rs have "map (parse_record headers) (row # rows) = map Some (r # rs)" by simp
  then show ?case by blast
qed

lemma process_rows_reachable:
  assumes "reachable db"
  shows "map (parse_record fieldnames) rows = map Some rs \<Longrightarrow>
         process_rows db fieldnames rows e =
           e\<lparr>lookups := lookups e @ map case_number rs,
             emails := emails e @ concat (map (notifications db) rs)\<rparr>"
proof (induction rows arbitrary: rs e)
  case Nil
  then show ?case by simp
next
  case (Cons row rows)
  from Cons.prems obtain r rs' where rs: "rs = r # rs'" "parse_record fieldnames row = Some r"
    "map (parse_record fieldnames) rows = map Some rs'"
    by (cases rs) auto
  show ?case
    using Cons.IH[OF rs(3)] rs lookup_and_notify_reachable[OF assms]
    by simp
qed

lemma allahabad_process_rows_reachable:
  assumes "reachable db"
  shows "allahabad_process_rows db rows e =
           (e\<lparr>lookups := lookups e @ map (\<lambda>row. case_number (allahabad_parse_record row)) rows,
              emails := emails e @ concat (map (\<lambda>row. notifications db (allahabad_parse_record row)) rows)\<rparr>,
            False)"
proof (induction rows arbitrary: e)
  case Nil
  then show ?case by simp
next
  case (Cons row rows)
  show ?case
    using Cons.IH lookup_and_notify_reachable[OF assms]
    by simp
qed

text \<open>
  C7, as amended. A lookup is attempted for every record, with the case number the
  record has: the empty string when the cell is empty (Gauhati), SQL \<open>NULL\<close> when no
  cell matches the pattern (Allahabad). With the database reached, the lookups are the
  case numbers of the records in order, the mails sent are those for the watchers each
  lookup returns, the loop runs to the last record, and a record without a case number
  (\<open>NULL\<close>) causes no mail.
\<close>

theorem lookup_for_every_record:
  "(reachable db \<longrightarrow>
      (\<exists>rs. parsed_records (headers # rows) = map Some rs \<and>
         process_csv db (headers # rows) =
           \<lparr>lookups = map case_number rs, emails = concat (map (notifications db) rs)\<rparr>)) \<and>
   (reachable adb \<longrightarrow>
      allahabad_process_csv adb file =
        (\<lparr>lookups = map (\<lambda>row. case_number (allahabad_parse_record row)) (tl file),
          emails = concat (map (\<lambda>row. notifications adb (allahabad_parse_record row)) (tl file))\<rparr>,
         False)) \<and>
   (case_number r = None \<longrightarrow> notifications db' r = [])"
proof (intro conjI impI)
  assume r: "reachable db"
  from parsed_records_headers obtain rs where
    rs: "map (parse_record headers) (filter (\<lambda>row. row \<noteq> []) rows) = map Some rs" by blast
  have "process_csv db (headers # rows) =
      \<lparr>lookups = map case_number rs, emails = concat (map (notifications db) rs)\<rparr>"
    using process_rows_reachable[OF r rs, of no_effects]
    by (simp add: process_csv_def no_effects_def)
  with rs show "\<exists>rs. parsed_records (headers # rows) = map Some rs \<and>
         process_csv db (headers # rows) =
           \<lparr>lookups = map case_number rs, emails = concat (map (notifications db) rs)\<rparr>"
    by (auto simp: parsed_records_def)
next
  assume r: "reachable adb"
  show "allahabad_process_csv adb file =
        (\<lparr>lookups = map (\<lambda>row. case_number (allahabad_parse_record row)) (tl file),
          emails = concat (map (\<lambda>row. notifications adb (allahabad_parse_record row)) (tl file))\<rparr>,
         False)"
    using allahabad_process_rows_reachable[OF r, of "tl file" no_effects]
    by (simp add: allahabad_process_csv_def no_effects_def)
next
  assume "case_number r = None"
  then show "notifications db' r = []" by (simp add: notifications_def)
qed

theorem lookup_for_every_record_witness:
  "reachable \<lparr>reachable = True, watchers_of = (\<lambda>k. [(''Asha'', ''asha@example.org'')])\<rparr> \<and>
   (\<exists>rs. parsed_records (headers # [[''1'', [], ''X Versus Y'', [], []]]) = map Some rs \<and>
      process_csv \<lparr>reachable = True, watchers_of = (\<lambda>k. [(''Asha'', ''asha@example.org'')])\<rparr>
        (headers # [[''1'', [], ''X Versus Y'', [], []]]) =
        \<lparr>lookups = map case_number rs,
         emails = concat (map (notifications
           \<lparr>reachable = True, watchers_of = (\<lambda>k. [(''Asha'', ''asha@example.org'')])\<rparr>) rs)\<rparr>) \<and>
   allahabad_process_csv \<lparr>reachable = True, watchers_of = (\<lambda>k. [(''Asha'', ''asha@example.org'')])\<rparr>
     [[''0'', ''1''], [''1'', ''no case number'']] =
     (\<lparr>lookups = [None], emails = []\<rparr>, False) \<and>
   case_number (allahabad_parse_record [''1'', ''no case number'']) = None \<and>
   notifications \<lparr>reachable = True, watchers_of = (\<lambda>k. [(''Asha'', ''asha@example.org'')])\<rparr>
     (allahabad_parse_record [''1'', ''no case number'']) = []"
proof -
  define db where "db = \<lparr>reachable = True, watchers_of = (\<lambda>k::string. [(''Asha'', ''asha@example.org'')])\<rparr>"
  have h: "reachable db" by (simp add: db_def)
  have n: "case_number (allahabad_parse_record [''1'', ''no case number'']) = None"
    by code_simp
  note th = lookup_for_every_record[of db "[[''1'', [], ''X Versus Y'', [], []]]" db
      "[[''0'', ''1''], [''1'', ''no case number'']]"
      "allahabad_parse_record [''1'', ''no case number'']" db]
  from th h have a: "\<exists>rs. parsed_records (headers # [[''1'', [], ''X Versus Y'', [], []]]) = map Some rs \<and>
      process_csv db (headers # [[''1'', [], ''X Versus Y'', [], []]]) =
        \<lparr>lookups = map case_number rs, emails = concat (map (notifications db) rs)\<rparr>"
    by blast
  from th n have c: "notifications db (allahabad_parse_record [''1'', ''no case number'']) = []"
    by blast
  from th h have "allahabad_process_csv db [[''0'', ''1''], [''1'', ''no case number'']] =
        (\<lparr>lookups = map (\<lambda>row. case_number (allahabad_parse_record row))
                      (tl [[''0'', ''1''], [''1'', ''no case number'']]),
          emails = concat (map (\<lambda>row. notifications db (allahabad_parse_record row))
                      (tl [[''0'', ''1''], [''1'', ''no case number'']]))\<rparr>, False)"
    by blast
  with n c have b: "allahabad_process_csv db [[''0'', ''1''], [''1'', ''no case number'']] =
     (\<lparr>lookups = [None], emails = []\<rparr>, False)"
    by simp
  from h a b n c show ?thesis unfolding db_def by blast
qed

text \<open>
  C7 as stated fails. A Gauhati record whose case number cell is empty is looked up with
  the empty string, and a watcher of a case stored with an empty number is mailed; an
  Allahabad record with no case number is looked up with \<open>NULL\<close>.
\<close>

theorem lookup_without_case_number:
  "process_csv \<lparr>reachable = True, watchers_of = (\<lambda>k. if k = [] then [(''Asha'', ''asha@example.org'')] else [])\<rparr>
     [headers, [''1'', [], ''X Versus Y'', [], []]]
   = \<lparr>lookups = [Some []],
      emails = [((''Asha'', ''asha@example.org''),
                 \<lparr>case_number = Some [], main_parties = ''X Versus Y'',
                  petitioner_advocates = Names [], respondent_advocates = Names []\<rparr>)]\<rparr> \<and>
   allahabad_process_csv \<lparr>reachable = True, watchers_of = (\<lambda>k. [])\<rparr>
     [[''0'', ''1''], [''1'', ''no case number'']]
   = (\<lparr>lookups = [None], emails = []\<rparr>, False)"
  by code_simp

text \<open>
  C3. On the three rows of the scenario, \<open>clean_csv\<close> followed by the parsing of
  \<open>process_csv\<close> gives two records. The advocates were joined with \<open>"; "\<close> and are split
  at \<open>";"\<close>, so the second petitioner advocate of the first record is \<open>" Adv2"\<close>, with the
  blank of the separator, and not \<open>"Adv2"\<close>.
\<close>

theorem scenario_advocate_split:
  "map_option parsed_records
     (gauhati_clean_csv
        [[''1'', ''ABC/12/2024'', ''X Versus Y'', ''Adv1'', []],
         [[], [], [], ''Adv2'', []],
         [''2'', ''DEF/13/2024'', ''P vs Q'', ''Adv3'', ''Adv4'']])
   = Some [Some \<lparr>case_number = Some ''ABC/12/2024'', main_parties = ''X Versus Y'',
                  petitioner_advocates = Names [''Adv1'', '' Adv2''],
                  respondent_advocates = Names []\<rparr>,
           Some \<lparr>case_number = Some ''DEF/13/2024'', main_parties = ''P vs Q'',
                  petitioner_advocates = Names [''Adv3''],
                  respondent_advocates = Names [''Adv4'']\<rparr>]"
  by code_simp

section \<open>Properties of the orchestrator\<close>

lemma gauhati_accept_extends:
  "gauhati_accept strptime last_date rows acc = Some names \<Longrightarrow> \<exists>later. names = acc @ later"
proof (induction rows arbitrary: acc)
  case Nil
  then show ?case by simp
next
  case (Cons r rest)
  from Cons.prems have lk: "link_ok r"
    by (cases "link_ok r") (simp_all add: Let_def)
  from Cons.prems lk obtain d where d: "strptime (strip (take 10 (cell_text r))) ''%d/%m/%Y'' = Some d"
    by (cases "strptime (strip (take 10 (cell_text r))) ''%d/%m/%Y''") (simp_all add: Let_def)
  show ?case
  proof (cases "last_date < d")
    case True
    with Cons.prems lk d have ok: "download_ok r"
      by (cases "download_ok r") (simp_all add: Let_def)
    with Cons.prems lk d True
    have "gauhati_accept strptime last_date rest (acc @ [take 10 (cell_text r)]) = Some names"
      by (simp add: Let_def)
    from Cons.IH[OF this] show ?thesis by auto
  next
    case False
    with Cons.prems lk d show ?thesis by (simp add: Let_def)
  qed
qed

lemma gauhati_accept_first:
  assumes "gauhati_accept strptime last_date rows [] = Some names" "names \<noteq> []"
  shows "\<exists>r rest d later. rows = r # rest \<and>
           strptime (strip (take 10 (cell_text r))) ''%d/%m/%Y'' = Some d \<and> last_date < d \<and>
           names = take 10 (cell_text r) # later"
proof (cases rows)
  case Nil
  with assms show ?thesis by simp
next
  case (Cons r rest)
  from assms(1) Cons have lk: "link_ok r"
    by (cases "link_ok r") (simp_all add: Let_def)
  from assms(1) Cons lk obtain d where d: "strptime (strip (take 10 (cell_text r))) ''%d/%m/%Y'' = Some d"
    by (cases "strptime (strip (take 10 (cell_text r))) ''%d/%m/%Y''") (simp_all add: Let_def)
  show ?thesis
  proof (cases "last_date < d")
    case True
    with assms(1) Cons lk d have ok: "download_ok r"
      by (cases "download_ok r") (simp_all add: Let_def)
    with assms(1) Cons lk d True
    have "gauhati_accept strptime last_date rest ([] @ [take 10 (cell_text r)]) = Some names"
      by (simp add: Let_def)
    from gauhati_accept_extends[OF this] obtain later where "names = take 10 (cell_text r) # later"
      by auto
    with Cons d True show ?thesis by blast
  next
    case False
    with assms Cons lk d show ?thesis by (simp add: Let_def)
  qed
qed

lemma allahabad_accept_extends:
  "allahabad_accept strptime last_date rows acc = Some names \<Longrightarrow> \<exists>later. names = acc @ later"
proof (induction rows arbitrary: acc)
  case Nil
  then show ?case by simp
next
  case (Cons r rest)
  from Cons.prems obtain d where d: "strptime (strip (cell_text r)) ''%d-%m-%Y'' = Some d"
    by (cases "strptime (strip (cell_text r)) ''%d-%m-%Y''") (simp_all add: Let_def)
  show ?case
  proof (cases "last_date < d")
    case True
    with Cons.prems d have ok: "link_ok r \<and> download_ok r"
      by (cases "link_ok r \<and> download_ok r") (simp_all add: Let_def)
    with Cons.prems d True
    have "allahabad_accept strptime last_date rest (acc @ [strip (cell_text r)]) = Some names"
      by (simp add: Let_def)
    from Cons.IH[OF this] show ?thesis by auto
  next
    case False
    with Cons.prems d show ?thesis by (simp add: Let_def)
  qed
qed

lemma allahabad_accept_first:
  assumes "allahabad_accept strptime last_date rows [] = Some names" "names \<noteq> []"
  shows "\<exists>r rest d later. rows = r # rest \<and>
           strptime (strip (cell_text r)) ''%d-%m-%Y'' = Some d \<and> last_date < d \<and>
           names = strip (cell_text r) # later"
proof (cases rows)
  case Nil
  with assms show ?thesis by simp
next
  case (Cons r rest)
  from assms(1) Cons obtain d where d: "strptime (strip (cell_text r)) ''%d-%m-%Y'' = Some d"
    by (cases "strptime (strip (cell_text r)) ''%d-%m-%Y''") (simp_all add: Let_def)
  show ?thesis
  proof (cases "last_date < d")
    case True
    with assms(1) Cons d have ok: "link_ok r \<and> download_ok r"
      by (cases "link_ok r \<and> download_ok r") (simp_all add: Let_def)
    with assms(1) Cons d True
    have "allahabad_accept strptime last_date rest ([] @ [strip (cell_text r)]) = Some names"
      by (simp add: Let_def)
    from allahabad_accept_extends[OF this] obtain later where "names = strip (cell_text r) # later"
      by auto
    with Cons d True show ?thesis by blast
  next
    case False
    with assms Cons d show ?thesis by (simp add: Let_def)
  qed
qed

lemma gauhati_fetch_list_cases:
  assumes "gauhati_fetch_list strptime today stored page = (stored', files)"
  shows "(files = None \<and> stored' = stored) \<or>
         (\<exists>last d names.
            files = Some (take 10 (cell_text (list_rows page ! 1)) # names) \<and>
            stored' = Some (cell_text (list_rows page ! 1)) \<and>
            last_date_of strptime ''%d/%m/%Y'' today stored = Some last \<and>
            strptime (strip (take 10 (cell_text (list_rows page ! 1)))) ''%d/%m/%Y'' = Some d \<and>
            last < d)"
proof (cases "last_date_of strptime ''%d/%m/%Y'' today stored")
  case None
  with assms show ?thesis by (simp add: gauhati_fetch_list_def)
next
  case (Some last)
  show ?thesis
  proof (cases "\<not> site_ok page \<or> length (list_rows page) < 2")
    case True
    with assms Some show ?thesis by (auto simp: gauhati_fetch_list_def)
  next
    case False
    show ?thesis
    proof (cases "gauhati_accept strptime last (tl (list_rows page)) []")
      case None
      with assms Some False show ?thesis by (auto simp: gauhati_fetch_list_def Let_def)
    next
      case acc: (Some names)
      show ?thesis
      proof (cases "names = []")
        case True
        with assms Some False acc show ?thesis by (auto simp: gauhati_fetch_list_def Let_def)
      next
        case ne: False
        from gauhati_accept_first[OF acc ne] obtain r rest d later where
          r: "tl (list_rows page) = r # rest"
            "strptime (strip (take 10 (cell_text r))) ''%d/%m/%Y'' = Some d" "last < d"
            "names = take 10 (cell_text r) # later"
          by blast
        from r(1) have r1: "list_rows page ! 1 = r"
          by (cases "list_rows page") simp_all
        have "gauhati_fetch_list strptime today stored page
                = (Some (cell_text (list_rows page ! 1)), Some names)"
          using Some False acc ne by (simp add: gauhati_fetch_list_def Let_def)
        with assms have "stored' = Some (cell_text (list_rows page ! 1))" "files = Some names"
          by simp_all
        with r r1 Some show ?thesis by auto
      qed
    qed
  qed
qed

lemma allahabad_fetch_list_cases:
  assumes "allahabad_fetch_list strptime today stored page = (stored', files)"
  shows "(files = None \<and> stored' = stored) \<or>
         (\<exists>last d names.
            files = Some (strip (cell_text (list_rows page ! 0)) # names) \<and>
            stored' = Some (cell_text (list_rows page ! 0)) \<and>
            last_date_of strptime ''%d-%m-%Y'' today stored = Some last \<and>
            last_date_of strptime ''%d-%m-%Y'' today' stored' = Some d \<and>
            last < d)"
proof (cases "last_date_of strptime ''%d-%m-%Y'' today stored")
  case None
  with assms show ?thesis by (simp add: allahabad_fetch_list_def)
next
  case (Some last)
  show ?thesis
  proof (cases "\<not> site_ok page \<or> list_rows page = []")
    case True
    with assms Some show ?thesis by (auto simp: allahabad_fetch_list_def)
  next
    case False
    show ?thesis
    proof (cases "allahabad_accept strptime last (list_rows page) []")
      case None
      with assms Some False show ?thesis by (auto simp: allahabad_fetch_list_def Let_def)
    next
      case acc: (Some names)
      show ?thesis
      proof (cases "names = []")
        case True
        with assms Some False acc show ?thesis by (auto simp: allahabad_fetch_list_def Let_def)
      next
        case ne: False
        from allahabad_accept_first[OF acc ne] obtain r rest d later where
          r: "list_rows page = r # rest"
            "strptime (strip (cell_text r)) ''%d-%m-%Y'' = Some d" "last < d"
            "names = strip (cell_text r) # later"
          by blast
        from r(1) have r1: "list_rows page ! 0 = r" by simp
        have "allahabad_fetch_list strptime today stored page
                = (Some (cell_text (list_rows page ! 0)), Some names)"
          using Some False acc ne by (simp add: allahabad_fetch_list_def Let_def)
        with assms have s: "stored' = Some (cell_text (list_rows page ! 0))" "files = Some names"
          by simp_all
        have "last_date_of strptime ''%d-%m-%Y'' today' stored' = Some d"
          using s(1) r1 r(2) by (simp add: last_date_of_def)
        with s r r1 Some show ?thesis by auto
      qed
    qed
  qed
qed

lemma run_gauhati_watermark:
  "fst (run_gauhati strptime today stored page pdf db)
     = fst (gauhati_fetch_list strptime today stored page)"
  by (cases "gauhati_fetch_list strptime today stored page";
      cases "snd (gauhati_fetch_list strptime today stored page)")
     (simp_all add: run_gauhati_def)

lemmas fetch_eval_defs =
  gauhati_fetch_list_def allahabad_fetch_list_def last_date_of_def sample_strptime_def
  strip_def py_isspace_def Let_def

text \<open>
  C1, as amended. \<open>fetch_list\<close> of either court leaves the watermark as it is and returns
  no file, or it returns the files it downloaded, the first of them for the first entry
  of the listing, and sets the watermark to the text of that entry. For Gauhati the
  first ten characters of that text denote a date later than the watermark before (than
  today when there was none), and the text itself is read as that date by a later run
  when the cell holds no more than ten characters. For Allahabad the text is read by a
  later run as a date later than the watermark before. The watermark after a run is the
  one \<open>fetch_list\<close> leaves: it does not depend on what the documents produce.
\<close>

theorem watermark_advance:
  "(gauhati_fetch_list strptime today stored page = (stored', files) \<longrightarrow>
      (files = None \<and> stored' = stored) \<or>
      (\<exists>last d names.
         files = Some (take 10 (cell_text (list_rows page ! 1)) # names) \<and>
         stored' = Some (cell_text (list_rows page ! 1)) \<and>
         last_date_of strptime ''%d/%m/%Y'' today stored = Some last \<and>
         strptime (strip (take 10 (cell_text (list_rows page ! 1)))) ''%d/%m/%Y'' = Some d \<and>
         last < d \<and>
         (length (cell_text (list_rows page ! 1)) \<le> 10 \<longrightarrow>
            last_date_of strptime ''%d/%m/%Y'' today' stored' = Some d))) \<and>
   (allahabad_fetch_list strptime atoday astored apage = (astored', afiles) \<longrightarrow>
      (afiles = None \<and> astored' = astored) \<or>
      (\<exists>last d names.
         afiles = Some (strip (cell_text (list_rows apage ! 0)) # names) \<and>
         astored' = Some (cell_text (list_rows apage ! 0)) \<and>
         last_date_of strptime ''%d-%m-%Y'' atoday astored = Some last \<and>
         last_date_of strptime ''%d-%m-%Y'' atoday' astored' = Some d \<and>
         last < d)) \<and>
   fst (run_gauhati strptime today stored page pdf db)
     = fst (gauhati_fetch_list strptime today stored page)"
proof (intro conjI impI)
  assume a: "gauhati_fetch_list strptime today stored page = (stored', files)"
  from gauhati_fetch_list_cases[OF a]
  show "(files = None \<and> stored' = stored) \<or>
      (\<exists>last d names.
         files = Some (take 10 (cell_text (list_rows page ! 1)) # names) \<and>
         stored' = Some (cell_text (list_rows page ! 1)) \<and>
         last_date_of strptime ''%d/%m/%Y'' today stored = Some last \<and>
         strptime (strip (take 10 (cell_text (list_rows page ! 1)))) ''%d/%m/%Y'' = Some d \<and>
         last < d \<and>
         (length (cell_text (list_rows page ! 1)) \<le> 10 \<longrightarrow>
            last_date_of strptime ''%d/%m/%Y'' today' stored' = Some d))"
  proof
    assume "files = None \<and> stored' = stored"
    then show ?thesis by blast
  next
    assume "\<exists>last d names.
            files = Some (take 10 (cell_text (list_rows page ! 1)) # names) \<and>
            stored' = Some (cell_text (list_rows page ! 1)) \<and>
            last_date_of strptime ''%d/%m/%Y'' today stored = Some last \<and>
            strptime (strip (take 10 (cell_text (list_rows page ! 1)))) ''%d/%m/%Y'' = Some d \<and>
            last < d"
    then obtain last d names where
      f: "files = Some (take 10 (cell_text (list_rows page ! 1)) # names)"
        "stored' = Some (cell_text (list_rows page ! 1))"
        "last_date_of strptime ''%d/%m/%Y'' today stored = Some last"
        "strptime (strip (take 10 (cell_text (list_rows page ! 1)))) ''%d/%m/%Y'' = Some d"
        "last < d"
      by blast
    have "length (cell_text (list_rows page ! 1)) \<le> 10 \<longrightarrow>
            last_date_of strptime ''%d/%m/%Y'' today' stored' = Some d"
    proof
      assume "length (cell_text (list_rows page ! 1)) \<le> 10"
      then have "take 10 (cell_text (list_rows page ! 1)) = cell_text (list_rows page ! 1)"
        by simp
      with f(4) have "strptime (strip (cell_text (list_rows page ! 1))) ''%d/%m/%Y'' = Some d"
        by simp
      with f(2) show "last_date_of strptime ''%d/%m/%Y'' today' stored' = Some d"
        by (simp add: last_date_of_def)
    qed
    with f show ?thesis by blast
  qed
next
  assume a: "allahabad_fetch_list strptime atoday astored apage = (astored', afiles)"
  from allahabad_fetch_list_cases[OF a, of atoday']
  show "(afiles = None \<and> astored' = astored) \<or>
      (\<exists>last d names.
         afiles = Some (strip (cell_text (list_rows apage ! 0)) # names) \<and>
         astored' = Some (cell_text (list_rows apage ! 0)) \<and>
         last_date_of strptime ''%d-%m-%Y'' atoday astored = Some last \<and>
         last_date_of strptime ''%d-%m-%Y'' atoday' astored' = Some d \<and>
         last < d)" .
next
  show "fst (run_gauhati strptime today stored page pdf db)
     = fst (gauhati_fetch_list strptime today stored page)"
    by (rule run_gauhati_watermark)
qed

theorem watermark_advance_witness:
  "gauhati_fetch_list sample_strptime 739300 (Some ''10/01/2025'')
     \<lparr>site_ok = True,
      list_rows = [\<lparr>cell_text = ''Date'', link_ok = False, download_ok = False\<rparr>,
                   \<lparr>cell_text = ''20/01/2025'', link_ok = True, download_ok = True\<rparr>,
                   \<lparr>cell_text = ''10/01/2025'', link_ok = True, download_ok = True\<rparr>]\<rparr>
     = (Some ''20/01/2025'', Some [''20/01/2025'']) \<and>
   last_date_of sample_strptime ''%d/%m/%Y'' 739300 (Some ''10/01/2025'') = Some 739261 \<and>
   last_date_of sample_strptime ''%d/%m/%Y'' 739301 (Some ''20/01/2025'') = Some 739271 \<and>
   allahabad_fetch_list sample_strptime 739271 None
     \<lparr>site_ok = True,
      list_rows = [\<lparr>cell_text = ''21-01-2025'', link_ok = True, download_ok = True\<rparr>,
                   \<lparr>cell_text = ''20-01-2025'', link_ok = True, download_ok = True\<rparr>]\<rparr>
     = (Some ''21-01-2025'', Some [''21-01-2025'']) \<and>
   (\<exists>last d. last_date_of sample_strptime ''%d-%m-%Y'' 739271 None = Some last \<and>
      last_date_of sample_strptime ''%d-%m-%Y'' 739272 (Some ''21-01-2025'') = Some d \<and> last < d)"
proof -
  define gp where "gp = \<lparr>site_ok = True,
      list_rows = [\<lparr>cell_text = ''Date'', link_ok = False, download_ok = False\<rparr>,
                   \<lparr>cell_text = ''20/01/2025'', link_ok = True, download_ok = True\<rparr>,
                   \<lparr>cell_text = ''10/01/2025'', link_ok = True, download_ok = True\<rparr>]\<rparr>"
  define ap where "ap = \<lparr>site_ok = True,
      list_rows = [\<lparr>cell_text = ''21-01-2025'', link_ok = True, download_ok = True\<rparr>,
                   \<lparr>cell_text = ''20-01-2025'', link_ok = True, download_ok = True\<rparr>]\<rparr>"
  have g: "gauhati_fetch_list sample_strptime 739300 (Some ''10/01/2025'') gp
             = (Some ''20/01/2025'', Some [''20/01/2025''])"
    unfolding gp_def by (simp add: fetch_eval_defs)
  have a: "allahabad_fetch_list sample_strptime 739271 None ap
             = (Some ''21-01-2025'', Some [''21-01-2025''])"
    unfolding ap_def by (simp add: fetch_eval_defs)
  have l: "last_date_of sample_strptime ''%d/%m/%Y'' 739300 (Some ''10/01/2025'') = Some 739261"
    by (simp add: fetch_eval_defs)
  have c: "cell_text (list_rows gp ! 1) = ''20/01/2025''"
    "cell_text (list_rows ap ! 0) = ''21-01-2025''"
    by (simp_all add: gp_def ap_def)
  note th = watermark_advance[of sample_strptime 739300 "Some ''10/01/2025''" gp
      "Some ''20/01/2025''" "Some [''20/01/2025'']" 739301
      739271 None ap "Some ''21-01-2025''" "Some [''21-01-2025'']" 739272]
  from th g obtain last d where
    g': "last_date_of sample_strptime ''%d/%m/%Y'' 739300 (Some ''10/01/2025'') = Some last"
      "length (cell_text (list_rows gp ! 1)) \<le> 10 \<longrightarrow>
         last_date_of sample_strptime ''%d/%m/%Y'' 739301 (Some ''20/01/2025'') = Some d"
      "sample_strptime (strip (take 10 (cell_text (list_rows gp ! 1)))) ''%d/%m/%Y'' = Some d"
    by blast
  have "sample_strptime (strip (take 10 ''20/01/2025'')) ''%d/%m/%Y'' = Some 739271"
    by (simp add: fetch_eval_defs)
  with g'(3) c(1) have "d = 739271" by simp
  with g'(2) c(1) have r: "last_date_of sample_strptime ''%d/%m/%Y'' 739301 (Some ''20/01/2025'') = Some 739271"
    by simp
  from th a have a': "\<exists>last d. last_date_of sample_strptime ''%d-%m-%Y'' 739271 None = Some last \<and>
      last_date_of sample_strptime ''%d-%m-%Y'' 739272 (Some ''21-01-2025'') = Some d \<and> last < d"
    by blast
  from g a l r a' show ?thesis unfolding gp_def ap_def by blast
qed

text \<open>
  C1 as stated fails. The listing shows a document of 20 January 2025, newer than the
  watermark of 10 January; the document has one page, so \<open>process_pdf\<close> skips it and no
  record is produced, and the watermark after the run is the text of 20 January all the
  same.
\<close>

theorem watermark_without_records:
  "run_gauhati sample_strptime 739300 (Some ''10/01/2025'')
     \<lparr>site_ok = True,
      list_rows = [\<lparr>cell_text = ''Date'', link_ok = False, download_ok = False\<rparr>,
                   \<lparr>cell_text = ''20/01/2025'', link_ok = True, download_ok = True\<rparr>,
                   \<lparr>cell_text = ''10/01/2025'', link_ok = True, download_ok = True\<rparr>]\<rparr>
     (\<lambda>f. \<lparr>num_pages = 1, extract_csv = (\<lambda>pages. None)\<rparr>)
     \<lparr>reachable = True, watchers_of = (\<lambda>k. [])\<rparr>
   = (Some ''20/01/2025'', [(''20/01/2025'', [], no_effects)])"
  by (simp add: run_gauhati_def process_pdf_def fetch_eval_defs)

text \<open>
  Two runs on which the watermark is what the code leaves. A Gauhati cell holding more
  than the date is stored whole, and the next run, on which \<open>strptime\<close> raises, returns
  no file and keeps it. A download that fails after another succeeded leaves the
  watermark as it was.
\<close>

lemma gauhati_whole_cell_stored:
  "gauhati_fetch_list sample_strptime 739300 (Some ''10/01/2025'')
     \<lparr>site_ok = True,
      list_rows = [\<lparr>cell_text = ''Date'', link_ok = False, download_ok = False\<rparr>,
                   \<lparr>cell_text = ''20/01/2025 Daily List'', link_ok = True, download_ok = True\<rparr>,
                   \<lparr>cell_text = ''10/01/2025'', link_ok = True, download_ok = True\<rparr>]\<rparr>
     = (Some ''20/01/2025 Daily List'', Some [''20/01/2025'']) \<and>
   gauhati_fetch_list sample_strptime 739301 (Some ''20/01/2025 Daily List'') page
     = (Some ''20/01/2025 Daily List'', None)"
  by (simp add: fetch_eval_defs)

lemma gauhati_failed_download_keeps_watermark:
  "gauhati_fetch_list sample_strptime 739300 (Some ''10/01/2025'')
     \<lparr>site_ok = True,
      list_rows = [\<lparr>cell_text = ''Date'', link_ok = False, download_ok = False\<rparr>,
                   \<lparr>cell_text = ''20/01/2025'', link_ok = True, download_ok = True\<rparr>,
                   \<lparr>cell_text = ''20/01/2025'', link_ok = True, download_ok = False\<rparr>]\<rparr>
     = (Some ''10/01/2025'', None)"
  by (simp add: fetch_eval_defs)

text \<open>
  C5. The page ranges start at \<open>range(2, num_pages, chunk_size)\<close>, which leaves out
  \<open>num_pages\<close> itself: a document of 52 pages gets the one range 2 to 51 and page 52 is
  in no range, and a document of 2 pages gets no range at all.
\<close>

theorem chunking_misses_last_page:
  "page_ranges 52 50 = [(2, 51)] \<and> \<not> list_ex (in_chunk 52) (page_ranges 52 50) \<and>
   page_ranges 2 50 = [] \<and> \<not> list_ex (in_chunk 2) (page_ranges 2 50)"
  by code_simp

section \<open>Row classes and rows before the first record\<close>

lemma strip_Nil: "strip [] = []"
  by (simp add: strip_def)

lemma is_start_row_iff: "is_start_row row \<longleftrightarrow> isdigit (strip (row ! 0))"
  by (cases "row ! 0 = []") (simp_all add: is_start_row_def strip_Nil isdigit_def)











text \<open>
  C4, as amended. Gauhati: a row is a start row exactly when its leading cell, trimmed, is
  a non-empty string of digits (the row then closes the open record and opens its own);
  a row whose leading cell is empty is merged into the open record; every other row,
  and every row met while no record is open, leaves the state as it is. Allahabad: a row
  is a start row exactly when its leading cell, trimmed, is not empty, digits or not;
  every other row is a continuation, merged into the open record or, when none is
  open, opening one.
\<close>

theorem row_classification:
  "(2 \<le> length g1 \<and> isdigit (strip (g1 ! 0)) \<longrightarrow>
      gauhati_step g1 (cl1, cur1) = Some (flush (cl1, cur1), Some (start_case g1))) \<and>
   (g2 \<noteq> [] \<and> g2 ! 0 = [] \<and> truthy cur2 \<longrightarrow>
      gauhati_step g2 (cl2, cur2) = Some (cl2, Some (merge_row g2 (the cur2)))) \<and>
   (g3 \<noteq> [] \<and> \<not> isdigit (strip (g3 ! 0)) \<and> (g3 ! 0 \<noteq> [] \<or> \<not> truthy cur3) \<longrightarrow>
      gauhati_step g3 (cl3, cur3) = Some (cl3, cur3)) \<and>
   (a1 \<noteq> [] \<and> strip (a1 ! 0) \<noteq> [] \<longrightarrow>
      allahabad_step a1 (ml1, acur1) = Some (allahabad_flush (ml1, acur1), Some a1)) \<and>
   (a2 \<noteq> [] \<and> strip (a2 ! 0) = [] \<longrightarrow>
      allahabad_step a2 (ml2, None) = Some (ml2, Some a2) \<and>
      allahabad_step a2 (ml2, Some c2) = map_option (\<lambda>c'. (ml2, Some c')) (merge_cells 0 a2 c2))"
proof (intro conjI impI)
  assume a: "2 \<le> length g1 \<and> isdigit (strip (g1 ! 0))"
  then have "g1 \<noteq> []" "is_start_row g1" "\<not> length g1 < 2"
    by (auto simp: is_start_row_iff)
  then show "gauhati_step g1 (cl1, cur1) = Some (flush (cl1, cur1), Some (start_case g1))"
    by (simp add: gauhati_step_def flush_def)
next
  assume a: "g2 \<noteq> [] \<and> g2 ! 0 = [] \<and> truthy cur2"
  then have "\<not> is_start_row g2" by (simp add: is_start_row_def)
  with a show "gauhati_step g2 (cl2, cur2) = Some (cl2, Some (merge_row g2 (the cur2)))"
    by (simp add: gauhati_step_def)
next
  assume a: "g3 \<noteq> [] \<and> \<not> isdigit (strip (g3 ! 0)) \<and> (g3 ! 0 \<noteq> [] \<or> \<not> truthy cur3)"
  then have "\<not> is_start_row g3" by (simp add: is_start_row_iff)
  with a show "gauhati_step g3 (cl3, cur3) = Some (cl3, cur3)"
    by (auto simp: gauhati_step_def)
next
  assume "a1 \<noteq> [] \<and> strip (a1 ! 0) \<noteq> []"
  then show "allahabad_step a1 (ml1, acur1) = Some (allahabad_flush (ml1, acur1), Some a1)"
    by (cases acur1) (simp_all add: allahabad_step_def allahabad_is_start_def allahabad_flush_def)
next
  assume "a2 \<noteq> [] \<and> strip (a2 ! 0) = []"
  then show "allahabad_step a2 (ml2, None) = Some (ml2, Some a2)"
    by (simp add: allahabad_step_def allahabad_is_start_def)
next
  assume "a2 \<noteq> [] \<and> strip (a2 ! 0) = []"
  then show "allahabad_step a2 (ml2, Some c2) = map_option (\<lambda>c'. (ml2, Some c')) (merge_cells 0 a2 c2)"
    by (cases "merge_cells 0 a2 c2") (simp_all add: allahabad_step_def allahabad_is_start_def)
qed

theorem row_classification_witness:
  "gauhati_step [''7'', ''A/1/2024''] ([headers], None)
     = Some (flush ([headers], None), Some (start_case [''7'', ''A/1/2024''])) \<and>
   gauhati_step [[], [], ''Q''] ([headers], Some [''7'', ''A/1/2024'', ''P'', [], []])
     = Some ([headers], Some (merge_row [[], [], ''Q''] (the (Some [''7'', ''A/1/2024'', ''P'', [], []])))) \<and>
   gauhati_step [''Court No'', ''x''] ([headers], Some [''7'', ''A/1/2024'', ''P'', [], []])
     = Some ([headers], Some [''7'', ''A/1/2024'', ''P'', [], []]) \<and>
   allahabad_step [''Court No'', ''x''] ([], Some [''1'', ''a''])
     = Some (allahabad_flush ([], Some [''1'', ''a'']), Some [''Court No'', ''x'']) \<and>
   allahabad_step [[], ''y''] ([], None) = Some ([], Some [[], ''y'']) \<and>
   allahabad_step [[], ''y''] ([], Some [''1'', ''a''])
     = map_option (\<lambda>c'. ([], Some c')) (merge_cells 0 [[], ''y''] [''1'', ''a''])"
proof -
  have h1: "2 \<le> length [''7'', ''A/1/2024''] \<and> isdigit (strip ([''7'', ''A/1/2024''] ! 0))"
    by (simp add: eval_defs)
  have h2: "[[], [], ''Q''] \<noteq> [] \<and> [[], [], ''Q''] ! 0 = [] \<and>
            truthy (Some [''7'', ''A/1/2024'', ''P'', [], []])"
    by (simp add: eval_defs)
  have h3: "[''Court No'', ''x''] \<noteq> [] \<and> \<not> isdigit (strip ([''Court No'', ''x''] ! 0)) \<and>
            ([''Court No'', ''x''] ! 0 \<noteq> [] \<or> \<not> truthy (Some [''7'', ''A/1/2024'', ''P'', [], []]))"
    by (simp add: eval_defs)
  have h4: "[''Court No'', ''x''] \<noteq> [] \<and> strip ([''Court No'', ''x''] ! 0) \<noteq> []"
    by (simp add: eval_defs)
  have h5: "[[], ''y''] \<noteq> [] \<and> strip ([[], ''y''] ! 0) = []"
    by (simp add: eval_defs)
  note th = row_classification[of "[''7'', ''A/1/2024'']" "[headers]" None
      "[[], [], ''Q'']" "Some [''7'', ''A/1/2024'', ''P'', [], []]" "[headers]"
      "[''Court No'', ''x'']" "Some [''7'', ''A/1/2024'', ''P'', [], []]" "[headers]"
      "[''Court No'', ''x'']" "[]" "Some [''1'', ''a'']"
      "[[], ''y'']" "[]" "[''1'', ''a'']"]
  from th h1 h2 h3 h4 h5 show ?thesis by blast
qed

text \<open>
  C4 as stated fails. In Allahabad a row led by \<open>Court No\<close>, which is no number, starts a
  record; in Gauhati the same row is neither a start row nor merged as a continuation.
\<close>

theorem classification_differs:
  "allahabad_is_start [''Court No'', ''b'', ''Y''] \<and> \<not> isdigit (strip ''Court No'') \<and>
   allahabad_merge [[''1'', ''A/1/2024'', ''X''], [''Court No'', ''b'', ''Y'']]
     = Some [[''1'', ''A/1/2024'', ''X''], [''Court No'', ''b'', ''Y'']] \<and>
   gauhati_clean_csv [[''1'', ''A/1/2024'', ''X''], [''Court No'', ''b'', ''Y'']]
     = Some [headers, [''1'', ''A/1/2024'', ''X'', [], []]]"
  by code_simp

section \<open>Content kept by the Gauhati cleaner\<close>




















end
